theory Spec2Isabelle
  imports Main "HOL-Library.Word" "HOL-Library.Finite_Map" "HOL-Library.Sublist"
begin

section \<open>Set taxonomy\<close>

text \<open>
  \<^verbatim>\<open>type SetType int8\<close>: an 8-bit signed integer with ten declared constants. The
  switch statements of the source have a \<^verbatim>\<open>default\<close> branch for every other value,
  so the type is modelled as an 8-bit word and not as an enumeration.
\<close>

type_synonym SetType = "8 word"

definition UnknownType :: SetType where "UnknownType = 0"
definition Namespace :: SetType where "Namespace = 1"
definition KeyLabelOfNamespace :: SetType where "KeyLabelOfNamespace = 2"
definition KeyValueLabelOfNamespace :: SetType where "KeyValueLabelOfNamespace = 3"
definition KeyLabelOfPod :: SetType where "KeyLabelOfPod = 4"
definition KeyValueLabelOfPod :: SetType where "KeyValueLabelOfPod = 5"
definition NamedPorts :: SetType where "NamedPorts = 6"
definition NestedLabelOfPod :: SetType where "NestedLabelOfPod = 7"
definition CIDRBlocks :: SetType where "CIDRBlocks = 8"
definition EmptyHashSet :: SetType where "EmptyHashSet = 9"

text \<open>The ten constants of the \<^verbatim>\<open>const\<close> block, in declaration order.\<close>

definition declaredSetTypes :: "SetType list" where
  "declaredSetTypes =
     [UnknownType, Namespace, KeyLabelOfNamespace, KeyValueLabelOfNamespace, KeyLabelOfPod,
      KeyValueLabelOfPod, NamedPorts, NestedLabelOfPod, CIDRBlocks, EmptyHashSet]"

text \<open>\<^verbatim>\<open>type SetKind string\<close> with three declared constants.\<close>

type_synonym SetKind = string

definition ListSet :: SetKind where "ListSet = ''list''"
definition HashSet :: SetKind where "HashSet = ''set''"
definition UnknownKind :: SetKind where "UnknownKind = ''unknown''"

text \<open>\<^verbatim>\<open>Unknown string = "unknown"\<close>, the sentinel of the naming functions.\<close>

definition Unknown :: string where "Unknown = ''unknown''"

text \<open>\<^verbatim>\<open>func (setType SetType) getSetKind() SetKind\<close>, the switch in source order.\<close>

definition getSetKind :: "SetType \<Rightarrow> SetKind" where
  "getSetKind setType =
     (if setType = CIDRBlocks then HashSet
      else if setType = Namespace then HashSet
      else if setType = NamedPorts then HashSet
      else if setType = KeyLabelOfPod then HashSet
      else if setType = KeyValueLabelOfPod then HashSet
      else if setType = EmptyHashSet then HashSet
      else if setType = KeyLabelOfNamespace then ListSet
      else if setType = KeyValueLabelOfNamespace then ListSet
      else if setType = NestedLabelOfPod then ListSet
      else if setType = UnknownType then UnknownKind
      else UnknownKind)"

section \<open>Collaborators outside this file\<close>

text \<open>
  The prefix constants and \<^verbatim>\<open>util.GetHashedName\<close> belong to package \<^verbatim>\<open>util\<close>, which
  this development does not embed. They are parameters of the model: every function that
  reads one of them takes the record below as its first argument.
\<close>

record util =
  util_CIDRPrefix :: string
  util_NamespacePrefix :: string
  util_NamedPortIPSetPrefix :: string
  util_PodLabelPrefix :: string
  util_NamespaceLabelPrefix :: string
  util_NestedLabelPrefix :: string
  util_EmptySetPrefix :: string
  util_GetHashedName :: "string \<Rightarrow> string"

text \<open>The prefixes that \<^verbatim>\<open>GetPrefixName\<close> may put in front of a name.\<close>

definition util_prefixes :: "util \<Rightarrow> string list" where
  "util_prefixes u =
     [util_CIDRPrefix u, util_NamespacePrefix u, util_NamedPortIPSetPrefix u,
      util_PodLabelPrefix u, util_NamespaceLabelPrefix u, util_NestedLabelPrefix u,
      util_EmptySetPrefix u]"

section \<open>Set metadata\<close>

record IPSetMetadata =
  Name :: string
  Type :: SetType

text \<open>
  Calls of \<^verbatim>\<open>metrics.SendErrorLogAndMetric\<close> and \<^verbatim>\<open>log.Logf\<close> are the only signals
  this file emits. A function that may log returns the events of the call next to its
  result. An event keeps the format string and, for the metric call, the metadata that is
  formatted into it.
\<close>

datatype log_event =
    SendErrorLogAndMetric string IPSetMetadata
  | Logf string

definition NewIPSetMetadata :: "string \<Rightarrow> SetType \<Rightarrow> IPSetMetadata" where
  "NewIPSetMetadata name setType = \<lparr>Name = name, Type = setType\<rparr>"

text \<open>\<^verbatim>\<open>GetPrefixName\<close>: \<^verbatim>\<open>fmt.Sprintf("%s%s", prefix, name)\<close> is concatenation.\<close>

definition GetPrefixName :: "util \<Rightarrow> IPSetMetadata \<Rightarrow> string \<times> log_event list" where
  "GetPrefixName u setMetadata =
     (if Type setMetadata = CIDRBlocks then (util_CIDRPrefix u @ Name setMetadata, [])
      else if Type setMetadata = Namespace then (util_NamespacePrefix u @ Name setMetadata, [])
      else if Type setMetadata = NamedPorts then
        (util_NamedPortIPSetPrefix u @ Name setMetadata, [])
      else if Type setMetadata = KeyLabelOfPod then (util_PodLabelPrefix u @ Name setMetadata, [])
      else if Type setMetadata = KeyValueLabelOfPod then
        (util_PodLabelPrefix u @ Name setMetadata, [])
      else if Type setMetadata = KeyLabelOfNamespace then
        (util_NamespaceLabelPrefix u @ Name setMetadata, [])
      else if Type setMetadata = KeyValueLabelOfNamespace then
        (util_NamespaceLabelPrefix u @ Name setMetadata, [])
      else if Type setMetadata = NestedLabelOfPod then
        (util_NestedLabelPrefix u @ Name setMetadata, [])
      else if Type setMetadata = EmptyHashSet then (util_EmptySetPrefix u @ Name setMetadata, [])
      else if Type setMetadata = UnknownType then
        (Unknown,
         [SendErrorLogAndMetric ''experienced unknown type in set metadata: %+v'' setMetadata])
      else
        (Unknown,
         [SendErrorLogAndMetric ''experienced unexpected type %d in set metadata: %+v''
            setMetadata]))"

definition GetHashedName :: "util \<Rightarrow> IPSetMetadata \<Rightarrow> string \<times> log_event list" where
  "GetHashedName u setMetadata =
     (let (prefixedName, events) = GetPrefixName u setMetadata
      in if prefixedName = Unknown then (Unknown, events)
         else (util_GetHashedName u prefixedName, events))"

definition GetSetKind :: "IPSetMetadata \<Rightarrow> SetKind" where
  "GetSetKind setMetadata = getSetKind (Type setMetadata)"

section \<open>Go maps, pointers and slices\<close>

text \<open>
  A Go map is a finite map; the \<^verbatim>\<open>nil\<close> map is \<open>None\<close>. Reading a nil map behaves like
  reading an empty one: its length is 0, a lookup finds nothing and \<^verbatim>\<open>range\<close> visits
  nothing.
\<close>

type_synonym ('k, 'v) gomap = "('k, 'v) fmap option"

definition len_fmap :: "('k, 'v) fmap \<Rightarrow> nat" where
  "len_fmap m = fcard (fmdom m)"

definition len_map :: "('k, 'v) gomap \<Rightarrow> nat" where
  "len_map m = (case m of None \<Rightarrow> 0 | Some f \<Rightarrow> len_fmap f)"

definition keys_map :: "('k, 'v) gomap \<Rightarrow> 'k set" where
  "keys_map m = (case m of None \<Rightarrow> {} | Some f \<Rightarrow> fmdom' f)"

definition lookup_map :: "('k, 'v) gomap \<Rightarrow> 'k \<Rightarrow> 'v option" where
  "lookup_map m k = (case m of None \<Rightarrow> None | Some f \<Rightarrow> fmlookup f k)"

text \<open>
  The order in which \<^verbatim>\<open>range\<close> visits a map is chosen by the runtime. It is an
  argument of the model: \<open>order\<close> lists the keys as the runtime visits them in this call,
  and \<open>visits order m\<close> says that it is such a list for \<open>m\<close> (every key once).
\<close>

definition range_map :: "'k list \<Rightarrow> ('k, 'v) gomap \<Rightarrow> ('k \<times> 'v) list" where
  "range_map order m =
     List.map_filter (\<lambda>k. map_option (Pair k) (lookup_map m k)) order"

definition visits :: "'k list \<Rightarrow> ('k, 'v) gomap \<Rightarrow> bool" where
  "visits order m \<longleftrightarrow> distinct order \<and> set order = keys_map m"

text \<open>
  Entities are shared through pointers, and \<^verbatim>\<open>canBeDeleted\<close> compares pointers, so a
  pointer is an address or \<^verbatim>\<open>nil\<close> (\<open>None\<close>), and the heap gives the entity at every
  address. Go is memory safe: a pointer that is not nil points to an entity, so the heap
  is total.
\<close>

type_synonym addr = nat
type_synonym IPSet_ptr = "addr option"

datatype error = ErrIPSetInvalidKind

datatype panic = NilPointerDereference | IndexOutOfRange

text \<open>
  The loop shape shared by \<^verbatim>\<open>GetSetContents\<close> and \<^verbatim>\<open>GetMembersOfTranslatedSets\<close>: a slice
  made beforehand is filled at index \<open>i\<close>, which is incremented for every visited element;
  \<open>f\<close> computes the value stored and may panic, as may the store out of range.
\<close>

fun fill_loop :: "('a \<Rightarrow> panic + 'b) \<Rightarrow> 'b list \<Rightarrow> nat \<Rightarrow> 'a list \<Rightarrow> panic + 'b list" where
  "fill_loop f contents i [] = Inr contents"
| "fill_loop f contents i (x # xs) =
     (case f x of
        Inl p \<Rightarrow> Inl p
      | Inr v \<Rightarrow>
          if i < length contents then fill_loop f (contents[i := v]) (Suc i) xs
          else Inl IndexOutOfRange)"

section \<open>The set entity\<close>

text \<open>
  \<^verbatim>\<open>type IPSet struct\<close>. The embedded \<^verbatim>\<open>SetProperties\<close> (\<^verbatim>\<open>Type\<close>, \<^verbatim>\<open>Kind\<close>) is
  flattened, as Go promotes its fields; the fields \<^verbatim>\<open>Name\<close> and \<^verbatim>\<open>Type\<close> are written
  \<open>set_Name\<close> and \<open>set_Type\<close>, since the metadata record has taken the plain names. The
  two membership maps may be nil. The two reference maps have the value type
  \<^verbatim>\<open>struct{}\<close>; the constructor allocates them and no function assigns them afterwards.
  The two counters are of Go's type \<^verbatim>\<open>int\<close>, 64 bits wide on the platforms the agent is
  built for: they wrap around, and comparisons with 0 are signed. The receiver, \<^verbatim>\<open>set\<close> in
  the source, is written \<open>s\<close>.
\<close>

type_synonym ReferenceType = string

definition SelectorType :: ReferenceType where "SelectorType = ''Selector''"
definition NetPolType :: ReferenceType where "NetPolType = ''NetPol''"

record IPSet =
  set_Name :: string
  unprefixedName :: string
  HashedName :: string
  set_Type :: SetType
  Kind :: SetKind
  IPPodKey :: "(string, string) gomap"
  MemberIPSets :: "(string, IPSet_ptr) gomap"
  SelectorReference :: "(string, unit) fmap"
  NetPolReference :: "(string, unit) fmap"
  ipsetReferCount :: "64 word"
  kernelReferCount :: "64 word"

text \<open>
  \<^verbatim>\<open>NewIPSet\<close>. The source returns a pointer to the new entity; the model returns the
  entity, and whoever stores it chooses its address.
\<close>

definition NewIPSet :: "util \<Rightarrow> IPSetMetadata \<Rightarrow> IPSet \<times> log_event list" where
  "NewIPSet u setMetadata =
     (let (prefixedName, events) = GetPrefixName u setMetadata;
          s = \<lparr>set_Name = prefixedName,
                 unprefixedName = Name setMetadata,
                 HashedName = util_GetHashedName u prefixedName,
                 set_Type = Type setMetadata,
                 Kind = GetSetKind setMetadata,
                 IPPodKey = None,
                 MemberIPSets = None,
                 SelectorReference = fmempty,
                 NetPolReference = fmempty,
                 ipsetReferCount = 0,
                 kernelReferCount = 0\<rparr>
      in if Kind s = HashSet then (s\<lparr>IPPodKey := Some fmempty\<rparr>, events)
         else (s\<lparr>MemberIPSets := Some fmempty\<rparr>, events))"

definition GetSetMetadata :: "IPSet \<Rightarrow> IPSetMetadata" where
  "GetSetMetadata s = NewIPSetMetadata (unprefixedName s) (set_Type s)"

text \<open>
  \<^verbatim>\<open>GetSetContents\<close> returns a slice and an error value, or panics. It reads the entity
  and, for a list, the \<^verbatim>\<open>HashedName\<close> of each member through its pointer; it assigns no
  field, so it is a function of the heap, the visiting order and the entity.
\<close>

definition GetSetContents ::
    "(addr \<Rightarrow> IPSet) \<Rightarrow> string list \<Rightarrow> IPSet \<Rightarrow> panic + (string list \<times> error option)" where
  "GetSetContents heap order s =
     (if Kind s = HashSet then
        (case fill_loop (\<lambda>(podIP, _). Inr podIP)
                (replicate (len_map (IPPodKey s)) []) 0 (range_map order (IPPodKey s)) of
           Inl p \<Rightarrow> Inl p
         | Inr contents \<Rightarrow> Inr (contents, None))
      else if Kind s = ListSet then
        (case fill_loop
                (\<lambda>(_, memberSet).
                    case memberSet of
                      None \<Rightarrow> Inl NilPointerDereference
                    | Some a \<Rightarrow> Inr (HashedName (heap a)))
                (replicate (len_map (MemberIPSets s)) []) 0
                (range_map order (MemberIPSets s)) of
           Inl p \<Rightarrow> Inl p
         | Inr contents \<Rightarrow> Inr (contents, None))
      else Inr ([], Some ErrIPSetInvalidKind))"

section \<open>Reference counting and references\<close>

text \<open>A mutating method returns the updated entity and the events it logged.\<close>

definition incIPSetReferCount :: "IPSet \<Rightarrow> IPSet \<times> log_event list" where
  "incIPSetReferCount s = (s\<lparr>ipsetReferCount := ipsetReferCount s + 1\<rparr>, [])"

definition decIPSetReferCount :: "IPSet \<Rightarrow> IPSet \<times> log_event list" where
  "decIPSetReferCount s =
     (if ipsetReferCount s = 0 then (s, [])
      else (s\<lparr>ipsetReferCount := ipsetReferCount s - 1\<rparr>, []))"

definition incKernelReferCount :: "IPSet \<Rightarrow> IPSet \<times> log_event list" where
  "incKernelReferCount s = (s\<lparr>kernelReferCount := kernelReferCount s + 1\<rparr>, [])"

definition decKernelReferCount :: "IPSet \<Rightarrow> IPSet \<times> log_event list" where
  "decKernelReferCount s =
     (if kernelReferCount s = 0 then (s, [])
      else (s\<lparr>kernelReferCount := kernelReferCount s - 1\<rparr>, []))"

definition addReference :: "string \<Rightarrow> ReferenceType \<Rightarrow> IPSet \<Rightarrow> IPSet \<times> log_event list" where
  "addReference referenceName referenceType s =
     (if referenceType = SelectorType then
        (s\<lparr>SelectorReference := fmupd referenceName () (SelectorReference s)\<rparr>, [])
      else if referenceType = NetPolType then
        (s\<lparr>NetPolReference := fmupd referenceName () (NetPolReference s)\<rparr>, [])
      else (s, [Logf ''IPSet_addReference: encountered unknown ReferenceType'']))"

definition deleteReference :: "string \<Rightarrow> ReferenceType \<Rightarrow> IPSet \<Rightarrow> IPSet \<times> log_event list" where
  "deleteReference referenceName referenceType s =
     (if referenceType = SelectorType then
        (s\<lparr>SelectorReference := fmdrop referenceName (SelectorReference s)\<rparr>, [])
      else if referenceType = NetPolType then
        (s\<lparr>NetPolReference := fmdrop referenceName (NetPolReference s)\<rparr>, [])
      else (s, [Logf ''IPSet_deleteReference: encountered unknown ReferenceType'']))"

section \<open>Lifecycle predicates\<close>

definition usedByNetPol :: "IPSet \<Rightarrow> bool" where
  "usedByNetPol s \<longleftrightarrow>
     len_fmap (SelectorReference s) > 0 \<or> len_fmap (NetPolReference s) > 0"

definition referencedInList :: "IPSet \<Rightarrow> bool" where
  "referencedInList s \<longleftrightarrow> 0 <s ipsetReferCount s"

definition referencedInKernel :: "IPSet \<Rightarrow> bool" where
  "referencedInKernel s \<longleftrightarrow> 0 <s kernelReferCount s"

definition shouldBeInKernel :: "IPSet \<Rightarrow> bool" where
  "shouldBeInKernel s \<longleftrightarrow> usedByNetPol s \<or> referencedInKernel s"

definition canBeForceDeleted :: "IPSet \<Rightarrow> bool" where
  "canBeForceDeleted s \<longleftrightarrow> \<not> usedByNetPol s \<and> \<not> referencedInList s"

text \<open>
  \<^verbatim>\<open>canBeDeleted\<close>: the loop takes the member visited first and breaks; with no member
  \<^verbatim>\<open>firstMember\<close> stays nil.
\<close>

definition canBeDeleted :: "string list \<Rightarrow> IPSet \<Rightarrow> IPSet_ptr \<Rightarrow> bool" where
  "canBeDeleted order s ignorableMember =
     (let firstMember =
            (case range_map order (MemberIPSets s) of
               [] \<Rightarrow> None
             | (_, member) # _ \<Rightarrow> member);
          listMembersOk =
            (len_map (MemberIPSets s) = 0 \<or>
             (len_map (MemberIPSets s) = 1 \<and> firstMember = ignorableMember))
      in \<not> usedByNetPol s \<and>
         \<not> referencedInList s \<and>
         len_map (IPPodKey s) = 0 \<and>
         listMembersOk)"

text \<open>
  \<^verbatim>\<open>hasMember\<close> is the two-value map read \<^verbatim>\<open>_, isMember := set.MemberIPSets[memberName]\<close>.
  Its comment says that it panics if the set is not a list; the read of a nil map is
  defined in Go and finds nothing, so the function has no panic and no error result.
\<close>

definition hasMember :: "IPSet \<Rightarrow> string \<Rightarrow> bool" where
  "hasMember s memberName = (lookup_map (MemberIPSets s) memberName \<noteq> None)"

text \<open>
  The membership test in the words of the specification, to compare \<open>hasMember\<close> with:
  it answers for a list and fails with the invalid-kind error for every other kind.
\<close>

definition HasMember_spec :: "IPSet \<Rightarrow> string \<Rightarrow> error + bool" where
  "HasMember_spec s memberHashedName =
     (if Kind s = ListSet then Inr (lookup_map (MemberIPSets s) memberHashedName \<noteq> None)
      else Inl ErrIPSetInvalidKind)"

definition canSetBeSelectorIPSet :: "IPSet \<Rightarrow> bool" where
  "canSetBeSelectorIPSet s \<longleftrightarrow>
     set_Type s = KeyLabelOfPod \<or> set_Type s = KeyValueLabelOfPod \<or>
     set_Type s = Namespace \<or> set_Type s = NestedLabelOfPod"

section \<open>Members of translated sets\<close>

text \<open>
  \<^verbatim>\<open>GetMembersOfTranslatedSets\<close> makes a slice of \<^verbatim>\<open>len(members)\<close> nil pointers and
  stores a pointer to a new metadata value at each index; an element of the result is
  \<open>Some\<close> of the metadata pointed to, or \<open>None\<close> for nil.
\<close>

definition GetMembersOfTranslatedSets :: "string list \<Rightarrow> panic + IPSetMetadata option list" where
  "GetMembersOfTranslatedSets members =
     fill_loop (\<lambda>setName. Inr (Some (NewIPSetMetadata setName KeyValueLabelOfPod)))
       (replicate (length members) None) 0 members"

section \<open>Histories of an entity\<close>

text \<open>
  The mutating methods of the entity as operations, and the entity reached from a given
  one by a sequence of them, with the events logged on the way.
\<close>

datatype operation =
    IncIPSetReferCount
  | DecIPSetReferCount
  | IncKernelReferCount
  | DecKernelReferCount
  | AddReference string ReferenceType
  | DeleteReference string ReferenceType

fun step :: "operation \<Rightarrow> IPSet \<Rightarrow> IPSet \<times> log_event list" where
  "step IncIPSetReferCount s = incIPSetReferCount s"
| "step DecIPSetReferCount s = decIPSetReferCount s"
| "step IncKernelReferCount s = incKernelReferCount s"
| "step DecKernelReferCount s = decKernelReferCount s"
| "step (AddReference n t) s = addReference n t s"
| "step (DeleteReference n t) s = deleteReference n t s"

fun run :: "operation list \<Rightarrow> IPSet \<Rightarrow> IPSet \<times> log_event list" where
  "run [] s = (s, [])"
| "run (x # xs) s =
     (let (s', events) = step x s; (s'', events') = run xs s'
      in (s'', events @ events'))"

section \<open>Sample parameters\<close>

text \<open>
  Concrete values for the parameters, at which theorems are instantiated. The prefixes
  are in the style of the agent's set names; the stand-in for the hash puts the prefix
  named in the comment on \<^verbatim>\<open>HashedName\<close> in front of its argument.
\<close>

definition sample_util :: util where
  "sample_util =
     \<lparr>util_CIDRPrefix = ''cidr-'',
      util_NamespacePrefix = ''ns-'',
      util_NamedPortIPSetPrefix = ''namedport:'',
      util_PodLabelPrefix = ''podlabel-'',
      util_NamespaceLabelPrefix = ''nslabel-'',
      util_NestedLabelPrefix = ''nestedlabel-'',
      util_EmptySetPrefix = ''emptyhashset-'',
      util_GetHashedName = (\<lambda>name. ''azure-npm-'' @ name)\<rparr>"

section \<open>Properties of the taxonomy\<close>

lemmas SetType_defs =
  UnknownType_def Namespace_def KeyLabelOfNamespace_def KeyValueLabelOfNamespace_def
  KeyLabelOfPod_def KeyValueLabelOfPod_def NamedPorts_def NestedLabelOfPod_def
  CIDRBlocks_def EmptyHashSet_def

lemmas SetKind_defs = ListSet_def HashSet_def UnknownKind_def

text \<open>
  Claim C4 does not hold as stated: the type is an 8-bit integer, and the \<^verbatim>\<open>default\<close>
  branch sends every value without a declared constant, such as 10, to \<open>UnknownKind\<close> as
  well.
\<close>

theorem getSetKind_unknown_counterexample:
  "getSetKind 10 = UnknownKind \<and> (10 :: SetType) \<noteq> UnknownType"
  by (simp add: getSetKind_def SetType_defs)

text \<open>
  Claim C4, amended: \<open>getSetKind\<close> is total and returns one of the three, pairwise
  different, kinds; among the ten declared set types \<open>UnknownType\<close> is the only one with
  kind \<open>UnknownKind\<close>, and every value that is not declared has kind \<open>UnknownKind\<close> too.
\<close>

theorem getSetKind_total:
  "(getSetKind t = HashSet \<or> getSetKind t = ListSet \<or> getSetKind t = UnknownKind) \<and>
   HashSet \<noteq> ListSet \<and> HashSet \<noteq> UnknownKind \<and> ListSet \<noteq> UnknownKind \<and>
   (t \<in> set declaredSetTypes \<longrightarrow> (getSetKind t = UnknownKind \<longleftrightarrow> t = UnknownType)) \<and>
   (t \<notin> set declaredSetTypes \<longrightarrow> getSetKind t = UnknownKind)"
  by (simp add: getSetKind_def declaredSetTypes_def SetType_defs SetKind_defs)

theorem getSetKind_total_witness:
  "UnknownType \<in> set declaredSetTypes \<and> getSetKind UnknownType = UnknownKind \<and>
   KeyValueLabelOfPod \<in> set declaredSetTypes \<and> getSetKind KeyValueLabelOfPod \<noteq> UnknownKind \<and>
   (10 :: SetType) \<notin> set declaredSetTypes \<and> getSetKind 10 = UnknownKind"
proof -
  have a: "UnknownType \<in> set declaredSetTypes" "KeyValueLabelOfPod \<in> set declaredSetTypes"
    by (simp_all add: declaredSetTypes_def)
  have b: "(10 :: SetType) \<notin> set declaredSetTypes"
    by (simp add: declaredSetTypes_def SetType_defs)
  have c: "KeyValueLabelOfPod \<noteq> UnknownType"
    by (simp add: SetType_defs)
  show ?thesis
    using a b c getSetKind_total [of UnknownType] getSetKind_total [of KeyValueLabelOfPod]
      getSetKind_total [of 10]
    by blast
qed

section \<open>Properties of Go maps and of the fill loop\<close>

lemma fmdom_fempty_iff: "fmdom m = {||} \<longleftrightarrow> m = fmempty"
proof
  assume "fmdom m = {||}"
  then have "fmlookup m k = None" for k
    by (metis fempty_iff fmdom_notD)
  then show "m = fmempty" by (intro fmap_ext) simp
qed simp

lemma len_fmap_0_iff: "len_fmap m = 0 \<longleftrightarrow> m = fmempty"
  by (simp add: len_fmap_def fmdom_fempty_iff)

lemma len_fmap_pos_iff: "0 < len_fmap m \<longleftrightarrow> m \<noteq> fmempty"
  using len_fmap_0_iff [of m] by auto

lemma len_fmap_card: "len_fmap m = card (fmdom' m)"
  by (simp add: len_fmap_def fcard.rep_eq fmdom'_alt_def)

lemma len_map_card: "len_map m = card (keys_map m)"
  by (simp add: len_map_def keys_map_def len_fmap_card split: option.split)

lemma len_map_0_iff: "len_map m = 0 \<longleftrightarrow> keys_map m = {}"
  by (simp add: len_map_card keys_map_def split: option.split)

lemma finite_keys_map: "finite (keys_map m)"
  by (simp add: keys_map_def split: option.split)

lemma lookup_map_None_iff: "lookup_map m k = None \<longleftrightarrow> k \<notin> keys_map m"
  by (auto simp: lookup_map_def keys_map_def fmlookup_dom'_iff split: option.split)

lemma visits_length: "visits order m \<Longrightarrow> length order = len_map m"
  by (simp add: visits_def len_map_card distinct_card [symmetric])

lemma range_map_visits:
  "set order \<subseteq> keys_map m \<Longrightarrow> range_map order m = map (\<lambda>k. (k, the (lookup_map m k))) order"
proof (induction order)
  case Nil
  then show ?case by (simp add: range_map_def map_filter_simps)
next
  case (Cons k ks)
  then obtain v where "lookup_map m k = Some v"
    using lookup_map_None_iff [of m k] by auto
  with Cons show ?case by (simp add: range_map_def map_filter_simps)
qed

lemma fill_loop_Inr:
  "(\<And>x. x \<in> set xs \<Longrightarrow> f x = Inr (g x)) \<Longrightarrow> i + length xs \<le> length contents \<Longrightarrow>
   fill_loop f contents i xs =
     Inr (take i contents @ map g xs @ drop (i + length xs) contents)"
proof (induction xs arbitrary: contents i)
  case Nil
  then show ?case by simp
next
  case (Cons x xs)
  have fx: "f x = Inr (g x)" using Cons.prems(1) by simp
  have lt: "i < length contents" using Cons.prems(2) by simp
  have "fill_loop f (contents[i := g x]) (Suc i) xs =
        Inr (take (Suc i) (contents[i := g x]) @ map g xs @
             drop (Suc i + length xs) (contents[i := g x]))"
    using Cons.prems by (intro Cons.IH) simp_all
  moreover have "take (Suc i) (contents[i := g x]) = take i contents @ [g x]"
    using lt by (simp add: take_Suc_conv_app_nth)
  ultimately show ?case using fx lt by simp
qed

lemma fill_loop_fresh:
  "(\<And>x. x \<in> set xs \<Longrightarrow> f x = Inr (g x)) \<Longrightarrow> length xs = n \<Longrightarrow>
   fill_loop f (replicate n z) 0 xs = Inr (map g xs)"
  using fill_loop_Inr [of xs f g 0 "replicate n z"] by simp

lemma fmupd_not_fmempty: "fmupd k v m \<noteq> fmempty"
proof
  assume "fmupd k v m = fmempty"
  then have "fmlookup (fmupd k v m) k = fmlookup fmempty k" by simp
  then show False by simp
qed

lemma one_key_order:
  assumes "visits order m" "keys_map m = {k}"
  shows "order = [k]"
proof (cases order)
  case Nil
  then show ?thesis using assms by (simp add: visits_def)
next
  case (Cons x xs)
  note order = Cons
  have d: "distinct (x # xs)" and e: "set (x # xs) = {k}"
    using assms order by (auto simp: visits_def)
  have x: "x = k" using e by auto
  have "xs = []"
  proof (cases xs)
    case Nil
    then show ?thesis .
  next
    case (Cons y ys)
    then have "y = k" using e by auto
    with Cons d x show ?thesis by simp
  qed
  with x order show ?thesis by simp
qed

lemma len_map_1_iff: "len_map m = Suc 0 \<longleftrightarrow> (\<exists>k. keys_map m = {k})"
  by (simp add: len_map_card card_1_singleton_iff)

section \<open>Properties of the constructor\<close>

lemma NewIPSet_fields:
  "set_Name (fst (NewIPSet u md)) = fst (GetPrefixName u md)"
  "unprefixedName (fst (NewIPSet u md)) = Name md"
  "HashedName (fst (NewIPSet u md)) = util_GetHashedName u (fst (GetPrefixName u md))"
  "set_Type (fst (NewIPSet u md)) = Type md"
  "Kind (fst (NewIPSet u md)) = getSetKind (Type md)"
  "IPPodKey (fst (NewIPSet u md)) =
     (if getSetKind (Type md) = HashSet then Some fmempty else None)"
  "MemberIPSets (fst (NewIPSet u md)) =
     (if getSetKind (Type md) = HashSet then None else Some fmempty)"
  "SelectorReference (fst (NewIPSet u md)) = fmempty"
  "NetPolReference (fst (NewIPSet u md)) = fmempty"
  "ipsetReferCount (fst (NewIPSet u md)) = 0"
  "kernelReferCount (fst (NewIPSet u md)) = 0"
  by (simp_all add: NewIPSet_def GetSetKind_def Let_def split: prod.split)

lemma GetPrefixName_recognized:
  assumes "Type md \<in> set declaredSetTypes" "Type md \<noteq> UnknownType"
  shows "\<exists>p \<in> set (util_prefixes u). fst (GetPrefixName u md) = p @ Name md"
  using assms
  by (auto simp: declaredSetTypes_def GetPrefixName_def util_prefixes_def SetType_defs)

lemma GetPrefixName_unrecognized:
  assumes "Type md \<notin> set declaredSetTypes \<or> Type md = UnknownType"
  shows "fst (GetPrefixName u md) = Unknown"
  using assms
  by (auto simp: declaredSetTypes_def GetPrefixName_def SetType_defs)

lemma GetHashedName_fst:
  "fst (GetHashedName u md) =
     (if fst (GetPrefixName u md) = Unknown then Unknown
      else util_GetHashedName u (fst (GetPrefixName u md)))"
  by (simp add: GetHashedName_def split: prod.split)

text \<open>
  Claim C10: for metadata of a recognized type the entity built by \<open>NewIPSet\<close> carries the
  hashed name that \<open>GetHashedName\<close> derives from the metadata; for \<open>UnknownType\<close> and for
  every undeclared type \<open>GetHashedName\<close> returns the sentinel, while \<open>NewIPSet\<close> stores the
  hash of the sentinel, and the two differ. The prefixes and the hash are parameters: the
  first part needs that no prefix is a prefix of the sentinel, the difference that the
  hash of the sentinel is not the sentinel.
\<close>

theorem HashedName_agreement:
  "(Type md \<in> set declaredSetTypes \<and> Type md \<noteq> UnknownType \<and>
    (\<forall>p \<in> set (util_prefixes u). \<not> prefix p Unknown) \<longrightarrow>
      HashedName (fst (NewIPSet u md)) = fst (GetHashedName u md)) \<and>
   (Type md \<notin> set declaredSetTypes \<or> Type md = UnknownType \<longrightarrow>
      fst (GetHashedName u md) = Unknown \<and>
      HashedName (fst (NewIPSet u md)) = util_GetHashedName u Unknown) \<and>
   ((Type md \<notin> set declaredSetTypes \<or> Type md = UnknownType) \<and>
    util_GetHashedName u Unknown \<noteq> Unknown \<longrightarrow>
      HashedName (fst (NewIPSet u md)) \<noteq> fst (GetHashedName u md))"
proof (intro conjI impI)
  assume a: "Type md \<in> set declaredSetTypes \<and> Type md \<noteq> UnknownType \<and>
    (\<forall>p \<in> set (util_prefixes u). \<not> prefix p Unknown)"
  then obtain p where "p \<in> set (util_prefixes u)" "fst (GetPrefixName u md) = p @ Name md"
    using GetPrefixName_recognized [of md u] by blast
  with a have "fst (GetPrefixName u md) \<noteq> Unknown"
    by (metis prefixI)
  then show "HashedName (fst (NewIPSet u md)) = fst (GetHashedName u md)"
    by (simp add: NewIPSet_fields GetHashedName_fst)
next
  assume "Type md \<notin> set declaredSetTypes \<or> Type md = UnknownType"
  then have "fst (GetPrefixName u md) = Unknown" by (rule GetPrefixName_unrecognized)
  then show "fst (GetHashedName u md) = Unknown"
    and "HashedName (fst (NewIPSet u md)) = util_GetHashedName u Unknown"
    by (simp_all add: NewIPSet_fields GetHashedName_fst)
next
  assume a: "(Type md \<notin> set declaredSetTypes \<or> Type md = UnknownType) \<and>
    util_GetHashedName u Unknown \<noteq> Unknown"
  then have "fst (GetPrefixName u md) = Unknown" by (intro GetPrefixName_unrecognized) simp
  with a show "HashedName (fst (NewIPSet u md)) \<noteq> fst (GetHashedName u md)"
    by (simp add: NewIPSet_fields GetHashedName_fst)
qed

theorem HashedName_agreement_witness:
  "Type \<lparr>Name = ''app:web'', Type = KeyValueLabelOfPod\<rparr> \<in> set declaredSetTypes \<and>
   Type \<lparr>Name = ''app:web'', Type = KeyValueLabelOfPod\<rparr> \<noteq> UnknownType \<and>
   list_all (\<lambda>p. \<not> prefix p Unknown) (util_prefixes sample_util) \<and>
   HashedName (fst (NewIPSet sample_util \<lparr>Name = ''app:web'', Type = KeyValueLabelOfPod\<rparr>)) =
     fst (GetHashedName sample_util \<lparr>Name = ''app:web'', Type = KeyValueLabelOfPod\<rparr>) \<and>
   Type \<lparr>Name = ''app:web'', Type = 10\<rparr> \<notin> set declaredSetTypes \<and>
   util_GetHashedName sample_util Unknown \<noteq> Unknown \<and>
   fst (GetHashedName sample_util \<lparr>Name = ''app:web'', Type = 10\<rparr>) = Unknown \<and>
   HashedName (fst (NewIPSet sample_util \<lparr>Name = ''app:web'', Type = 10\<rparr>)) =
     util_GetHashedName sample_util Unknown \<and>
   HashedName (fst (NewIPSet sample_util \<lparr>Name = ''app:web'', Type = 10\<rparr>)) \<noteq>
     fst (GetHashedName sample_util \<lparr>Name = ''app:web'', Type = 10\<rparr>)"
proof -
  let ?a = "\<lparr>Name = ''app:web'', Type = KeyValueLabelOfPod\<rparr>"
  let ?b = "\<lparr>Name = ''app:web'', Type = 10 :: SetType\<rparr>"
  have a: "Type ?a \<in> set declaredSetTypes" "Type ?a \<noteq> UnknownType"
    by (simp_all add: declaredSetTypes_def SetType_defs)
  have p: "\<forall>p \<in> set (util_prefixes sample_util). \<not> prefix p Unknown"
    by (simp add: util_prefixes_def sample_util_def Unknown_def)
  have b: "Type ?b \<notin> set declaredSetTypes"
    by (simp add: declaredSetTypes_def SetType_defs)
  have h: "util_GetHashedName sample_util Unknown \<noteq> Unknown"
    by (simp add: sample_util_def Unknown_def)
  show ?thesis
    using a p b h HashedName_agreement [of ?a sample_util] HashedName_agreement [of ?b sample_util]
    unfolding list_all_iff by blast
qed

section \<open>Properties of the lifecycle predicates\<close>

text \<open>
  Claim C2: \<open>shouldBeInKernel\<close> holds exactly when the entity is used by a policy or
  referenced in the kernel, that is, when one of the two reference sets is not empty or
  the kernel reference count is above zero. This holds of every entity, reachable or not.
\<close>

theorem shouldBeInKernel_iff:
  "(shouldBeInKernel s \<longleftrightarrow> usedByNetPol s \<or> referencedInKernel s) \<and>
   (shouldBeInKernel s \<longleftrightarrow>
      SelectorReference s \<noteq> fmempty \<or> NetPolReference s \<noteq> fmempty \<or>
      0 < sint (kernelReferCount s))"
  by (auto simp: shouldBeInKernel_def usedByNetPol_def referencedInKernel_def
      len_fmap_pos_iff word_sless_alt)

theorem shouldBeInKernel_iff_witness:
  "NetPolReference
     (fst (addReference ''netpol-1'' NetPolType
        (fst (NewIPSet sample_util \<lparr>Name = ''app:web'', Type = KeyValueLabelOfPod\<rparr>))))
     \<noteq> fmempty \<and>
   shouldBeInKernel
     (fst (addReference ''netpol-1'' NetPolType
        (fst (NewIPSet sample_util \<lparr>Name = ''app:web'', Type = KeyValueLabelOfPod\<rparr>)))) \<and>
   \<not> referencedInKernel
     (fst (addReference ''netpol-1'' NetPolType
        (fst (NewIPSet sample_util \<lparr>Name = ''app:web'', Type = KeyValueLabelOfPod\<rparr>))))"
proof -
  let ?e = "fst (addReference ''netpol-1'' NetPolType
        (fst (NewIPSet sample_util \<lparr>Name = ''app:web'', Type = KeyValueLabelOfPod\<rparr>)))"
  have ne: "NetPolReference ?e \<noteq> fmempty"
    by (simp add: addReference_def SelectorType_def NetPolType_def fmupd_not_fmempty)
  have k: "kernelReferCount ?e = 0"
    by (simp add: addReference_def SelectorType_def NetPolType_def NewIPSet_fields)
  have "\<not> referencedInKernel ?e"
    by (simp add: referencedInKernel_def k)
  with ne shouldBeInKernel_iff [of ?e] show ?thesis by blast
qed

text \<open>
  Claim C7: \<open>canBeForceDeleted\<close> holds exactly when the entity is neither used by a
  policy nor referenced in a list, and its value does not depend on the two membership
  maps.
\<close>

theorem canBeForceDeleted_iff:
  "(canBeForceDeleted s \<longleftrightarrow> \<not> usedByNetPol s \<and> \<not> referencedInList s) \<and>
   canBeForceDeleted (s\<lparr>IPPodKey := leaves, MemberIPSets := members\<rparr>) = canBeForceDeleted s"
  by (simp add: canBeForceDeleted_def usedByNetPol_def referencedInList_def)

section \<open>Properties of the reference counters\<close>

lemma fmupd_unit_present: "k \<in> fmdom' m \<Longrightarrow> fmupd k () m = m"
  by (intro fmap_ext) (auto simp: fmlookup_dom'_iff)

lemma sint_inc64:
  fixes c :: "64 word"
  assumes "0 \<le> sint c" "sint c + 1 < 2 ^ 63"
  shows "sint (c + 1) = sint c + 1"
proof -
  have "sint (c + 1) = signed_take_bit 63 (sint c + 1)"
    by (simp add: sint_word_ariths)
  also have "\<dots> = sint c + 1"
    using assms by (intro signed_take_bit_int_eq_self) simp_all
  finally show ?thesis .
qed

lemma sint_dec64:
  fixes c :: "64 word"
  assumes "0 \<le> sint c" "c \<noteq> 0"
  shows "sint (c - 1) = sint c - 1"
proof -
  have lt: "sint c < 2 ^ 63"
    using sint_lt [of c] by simp
  have "sint (c - 1) = signed_take_bit 63 (sint c - 1)"
    by (simp add: sint_word_ariths)
  also have "\<dots> = sint c - 1"
    using assms lt by (intro signed_take_bit_int_eq_self) simp_all
  finally show ?thesis .
qed

lemma sint_pos_dec64:
  fixes c :: "64 word"
  assumes "0 \<le> sint c" "c \<noteq> 0"
  shows "0 \<le> sint (c - 1)"
proof -
  have "sint c \<noteq> 0" using assms(2) by (metis sint_0 signed_word_eqI)
  then show ?thesis using assms sint_dec64 [of c] by simp
qed

lemma run_Cons: "run (x # xs) s = (fst (run xs (fst (step x s))), snd (step x s) @ snd (run xs (fst (step x s))))"
  by (simp add: split_beta)

lemma step_ipsetReferCount:
  "ipsetReferCount (fst (step x s)) =
     (if x = IncIPSetReferCount then ipsetReferCount s + 1
      else if x = DecIPSetReferCount \<and> ipsetReferCount s \<noteq> 0 then ipsetReferCount s - 1
      else ipsetReferCount s)"
  by (cases x)
    (simp_all add: incIPSetReferCount_def decIPSetReferCount_def incKernelReferCount_def
      decKernelReferCount_def addReference_def deleteReference_def)

lemma step_kernelReferCount:
  "kernelReferCount (fst (step x s)) =
     (if x = IncKernelReferCount then kernelReferCount s + 1
      else if x = DecKernelReferCount \<and> kernelReferCount s \<noteq> 0 then kernelReferCount s - 1
      else kernelReferCount s)"
  by (cases x)
    (simp_all add: incIPSetReferCount_def decIPSetReferCount_def incKernelReferCount_def
      decKernelReferCount_def addReference_def deleteReference_def)

lemma run_ipsetReferCount_bounds:
  "0 \<le> sint (ipsetReferCount s) \<Longrightarrow>
   sint (ipsetReferCount s) + int (count_list ops IncIPSetReferCount) < 2 ^ 63 \<Longrightarrow>
   0 \<le> sint (ipsetReferCount (fst (run ops s))) \<and>
   sint (ipsetReferCount (fst (run ops s)))
     \<le> sint (ipsetReferCount s) + int (count_list ops IncIPSetReferCount)"
proof (induction ops arbitrary: s)
  case Nil
  then show ?case by simp
next
  case (Cons x xs)
  let ?c = "ipsetReferCount s" and ?s' = "fst (step x s)"
  have c': "0 \<le> sint (ipsetReferCount ?s') \<and>
            sint (ipsetReferCount ?s') \<le> sint ?c + (if x = IncIPSetReferCount then 1 else 0)"
  proof (cases "x = IncIPSetReferCount")
    case True
    then have "sint ?c + 1 < 2 ^ 63" using Cons.prems(2) by simp
    then show ?thesis
      using True Cons.prems(1) by (simp add: step_ipsetReferCount sint_inc64 del: step.simps)
  next
    case False
    then show ?thesis
      using Cons.prems(1) sint_dec64 [of ?c] sint_pos_dec64 [of ?c]
      by (auto simp: step_ipsetReferCount simp del: step.simps)
  qed
  have bound: "sint (ipsetReferCount ?s') + int (count_list xs IncIPSetReferCount) < 2 ^ 63"
    using c' Cons.prems(2) by (auto split: if_splits)
  have "0 \<le> sint (ipsetReferCount (fst (run xs ?s'))) \<and>
        sint (ipsetReferCount (fst (run xs ?s')))
          \<le> sint (ipsetReferCount ?s') + int (count_list xs IncIPSetReferCount)"
    using c' bound by (intro Cons.IH) simp_all
  then show ?case
    using c' by (auto simp: run_Cons simp del: run.simps(2) step.simps split: if_splits)
qed

lemma run_kernelReferCount_bounds:
  "0 \<le> sint (kernelReferCount s) \<Longrightarrow>
   sint (kernelReferCount s) + int (count_list ops IncKernelReferCount) < 2 ^ 63 \<Longrightarrow>
   0 \<le> sint (kernelReferCount (fst (run ops s))) \<and>
   sint (kernelReferCount (fst (run ops s)))
     \<le> sint (kernelReferCount s) + int (count_list ops IncKernelReferCount)"
proof (induction ops arbitrary: s)
  case Nil
  then show ?case by simp
next
  case (Cons x xs)
  let ?c = "kernelReferCount s" and ?s' = "fst (step x s)"
  have c': "0 \<le> sint (kernelReferCount ?s') \<and>
            sint (kernelReferCount ?s') \<le> sint ?c + (if x = IncKernelReferCount then 1 else 0)"
  proof (cases "x = IncKernelReferCount")
    case True
    then have "sint ?c + 1 < 2 ^ 63" using Cons.prems(2) by simp
    then show ?thesis
      using True Cons.prems(1) by (simp add: step_kernelReferCount sint_inc64 del: step.simps)
  next
    case False
    then show ?thesis
      using Cons.prems(1) sint_dec64 [of ?c] sint_pos_dec64 [of ?c]
      by (auto simp: step_kernelReferCount simp del: step.simps)
  qed
  have bound: "sint (kernelReferCount ?s') + int (count_list xs IncKernelReferCount) < 2 ^ 63"
    using c' Cons.prems(2) by (auto split: if_splits)
  have "0 \<le> sint (kernelReferCount (fst (run xs ?s'))) \<and>
        sint (kernelReferCount (fst (run xs ?s')))
          \<le> sint (kernelReferCount ?s') + int (count_list xs IncKernelReferCount)"
    using c' bound by (intro Cons.IH) simp_all
  then show ?case
    using c' by (auto simp: run_Cons simp del: run.simps(2) step.simps split: if_splits)
qed

lemma run_replicate_inc:
  "ipsetReferCount (fst (run (replicate n IncIPSetReferCount) s)) = ipsetReferCount s + of_nat n"
  by (induction n arbitrary: s)
    (simp_all add: run_Cons step_ipsetReferCount del: run.simps(2) step.simps)

lemma run_events_dec_only:
  "set ops \<subseteq> {IncIPSetReferCount, DecIPSetReferCount, IncKernelReferCount, DecKernelReferCount} \<Longrightarrow>
   snd (run ops s) = []"
  by (induction ops arbitrary: s)
    (auto simp: run_Cons incIPSetReferCount_def decIPSetReferCount_def incKernelReferCount_def
      decKernelReferCount_def simp del: run.simps(2))

text \<open>
  Claim C3 does not hold as stated. A decrement of a counter that is zero returns
  without logging: two such calls in a row leave the entity as it was and emit no event
  at all, where the claim asks for a signal on each call. And the counter is a 64-bit
  integer that an increment wraps around: after \<open>2 ^ 63\<close> increments it is negative.
\<close>

theorem refcount_counterexample:
  "ipsetReferCount (fst (NewIPSet sample_util \<lparr>Name = ''default'', Type = Namespace\<rparr>)) = 0 \<and>
   run [DecIPSetReferCount, DecIPSetReferCount]
     (fst (NewIPSet sample_util \<lparr>Name = ''default'', Type = Namespace\<rparr>)) =
     (fst (NewIPSet sample_util \<lparr>Name = ''default'', Type = Namespace\<rparr>), []) \<and>
   sint (ipsetReferCount (fst (run (replicate (2 ^ 63) IncIPSetReferCount)
     (fst (NewIPSet sample_util \<lparr>Name = ''default'', Type = Namespace\<rparr>))))) < 0"
  by (simp add: run_replicate_inc NewIPSet_fields decIPSetReferCount_def)

text \<open>
  Claim C3, amended: in every entity reached from a newly built one by a sequence of
  operations with fewer than \<open>2 ^ 63\<close> increments of a counter, that counter is not
  negative; a decrement of a counter that is zero returns the entity unchanged, so the
  counter stays zero, and logs nothing.
\<close>

theorem refcount_nonneg:
  "(int (count_list ops IncIPSetReferCount) < 2 ^ 63 \<longrightarrow>
      0 \<le> sint (ipsetReferCount (fst (run ops (fst (NewIPSet u md)))))) \<and>
   (int (count_list ops IncKernelReferCount) < 2 ^ 63 \<longrightarrow>
      0 \<le> sint (kernelReferCount (fst (run ops (fst (NewIPSet u md)))))) \<and>
   (ipsetReferCount s = 0 \<longrightarrow> decIPSetReferCount s = (s, [])) \<and>
   (kernelReferCount s = 0 \<longrightarrow> decKernelReferCount s = (s, []))"
  using run_ipsetReferCount_bounds [of "fst (NewIPSet u md)" ops]
    run_kernelReferCount_bounds [of "fst (NewIPSet u md)" ops]
  by (simp add: NewIPSet_fields decIPSetReferCount_def decKernelReferCount_def)

theorem refcount_nonneg_witness:
  "int (count_list [IncIPSetReferCount, DecIPSetReferCount, DecIPSetReferCount,
          IncKernelReferCount] IncIPSetReferCount) < 2 ^ 63 \<and>
   0 \<le> sint (ipsetReferCount
     (fst (run [IncIPSetReferCount, DecIPSetReferCount, DecIPSetReferCount, IncKernelReferCount]
        (fst (NewIPSet sample_util \<lparr>Name = ''default'', Type = Namespace\<rparr>))))) \<and>
   int (count_list [IncIPSetReferCount, DecIPSetReferCount, DecIPSetReferCount,
          IncKernelReferCount] IncKernelReferCount) < 2 ^ 63 \<and>
   0 \<le> sint (kernelReferCount
     (fst (run [IncIPSetReferCount, DecIPSetReferCount, DecIPSetReferCount, IncKernelReferCount]
        (fst (NewIPSet sample_util \<lparr>Name = ''default'', Type = Namespace\<rparr>))))) \<and>
   ipsetReferCount (fst (NewIPSet sample_util \<lparr>Name = ''default'', Type = Namespace\<rparr>)) = 0 \<and>
   decIPSetReferCount (fst (NewIPSet sample_util \<lparr>Name = ''default'', Type = Namespace\<rparr>)) =
     (fst (NewIPSet sample_util \<lparr>Name = ''default'', Type = Namespace\<rparr>), []) \<and>
   kernelReferCount (fst (NewIPSet sample_util \<lparr>Name = ''default'', Type = Namespace\<rparr>)) = 0 \<and>
   decKernelReferCount (fst (NewIPSet sample_util \<lparr>Name = ''default'', Type = Namespace\<rparr>)) =
     (fst (NewIPSet sample_util \<lparr>Name = ''default'', Type = Namespace\<rparr>), [])"
proof -
  let ?e = "fst (NewIPSet sample_util \<lparr>Name = ''default'', Type = Namespace\<rparr>)"
  let ?ops = "[IncIPSetReferCount, DecIPSetReferCount, DecIPSetReferCount, IncKernelReferCount]"
  have a: "int (count_list ?ops IncIPSetReferCount) < 2 ^ 63"
          "int (count_list ?ops IncKernelReferCount) < 2 ^ 63"
    by simp_all
  have b: "ipsetReferCount ?e = 0" "kernelReferCount ?e = 0"
    by (simp_all add: NewIPSet_fields)
  show ?thesis
    using a b refcount_nonneg [of ?ops sample_util "\<lparr>Name = ''default'', Type = Namespace\<rparr>" ?e]
    by blast
qed

section \<open>Properties of the policy references\<close>

lemma addReference_twice:
  "addReference n rt (fst (addReference n rt s)) = addReference n rt s"
  by (simp add: addReference_def)

lemma deleteReference_twice:
  "deleteReference n rt (fst (deleteReference n rt s)) = deleteReference n rt s"
  by (simp add: deleteReference_def)

text \<open>
  Claim C8: for the reference types \<open>SelectorType\<close> and \<open>NetPolType\<close>, adding a policy
  name that is in the reference set of that type returns the entity unchanged, deleting
  one that is not in it returns the entity unchanged, and doing either twice is the same
  as doing it once.
\<close>

theorem reference_idempotent:
  "(n \<in> fmdom' (SelectorReference s) \<longrightarrow> addReference n SelectorType s = (s, [])) \<and>
   (n \<in> fmdom' (NetPolReference s) \<longrightarrow> addReference n NetPolType s = (s, [])) \<and>
   (n \<notin> fmdom' (SelectorReference s) \<longrightarrow> deleteReference n SelectorType s = (s, [])) \<and>
   (n \<notin> fmdom' (NetPolReference s) \<longrightarrow> deleteReference n NetPolType s = (s, [])) \<and>
   (rt \<in> {SelectorType, NetPolType} \<longrightarrow>
      run [AddReference n rt, AddReference n rt] s = run [AddReference n rt] s \<and>
      run [DeleteReference n rt, DeleteReference n rt] s = run [DeleteReference n rt] s)"
  by (auto simp: addReference_def deleteReference_def fmupd_unit_present fmdrop_idle'
      SelectorType_def NetPolType_def)

theorem reference_idempotent_witness:
  "''netpol-1'' \<in> fmdom' (NetPolReference
      (fst (addReference ''netpol-1'' NetPolType
        (fst (NewIPSet sample_util \<lparr>Name = ''app:web'', Type = KeyValueLabelOfPod\<rparr>))))) \<and>
   addReference ''netpol-1'' NetPolType
      (fst (addReference ''netpol-1'' NetPolType
        (fst (NewIPSet sample_util \<lparr>Name = ''app:web'', Type = KeyValueLabelOfPod\<rparr>)))) =
     (fst (addReference ''netpol-1'' NetPolType
        (fst (NewIPSet sample_util \<lparr>Name = ''app:web'', Type = KeyValueLabelOfPod\<rparr>))), []) \<and>
   ''netpol-1'' \<notin> fmdom' (SelectorReference
      (fst (NewIPSet sample_util \<lparr>Name = ''app:web'', Type = KeyValueLabelOfPod\<rparr>))) \<and>
   deleteReference ''netpol-1'' SelectorType
      (fst (NewIPSet sample_util \<lparr>Name = ''app:web'', Type = KeyValueLabelOfPod\<rparr>)) =
     (fst (NewIPSet sample_util \<lparr>Name = ''app:web'', Type = KeyValueLabelOfPod\<rparr>), []) \<and>
   NetPolType \<in> {SelectorType, NetPolType}"
proof -
  let ?e = "fst (NewIPSet sample_util \<lparr>Name = ''app:web'', Type = KeyValueLabelOfPod\<rparr>)"
  let ?e' = "fst (addReference ''netpol-1'' NetPolType ?e)"
  have a: "''netpol-1'' \<in> fmdom' (NetPolReference ?e')"
    by (simp add: addReference_def SelectorType_def NetPolType_def)
  have b: "''netpol-1'' \<notin> fmdom' (SelectorReference ?e)"
    by (simp add: NewIPSet_fields)
  show ?thesis
    using a b reference_idempotent [of "''netpol-1''" ?e' NetPolType]
      reference_idempotent [of "''netpol-1''" ?e NetPolType]
    by simp
qed

section \<open>Properties of the members of translated sets\<close>

lemma GetMembersOfTranslatedSets_map:
  "GetMembersOfTranslatedSets members =
     Inr (map (\<lambda>setName. Some (NewIPSetMetadata setName KeyValueLabelOfPod)) members)"
  unfolding GetMembersOfTranslatedSets_def
  by (rule fill_loop_fresh) simp_all

text \<open>
  Claim C9: \<open>GetMembersOfTranslatedSets\<close> returns, without a panic, as many metadata
  values as it is given names, in the order of the names: the one at index \<open>i\<close> has the
  name at index \<open>i\<close> and the type \<open>KeyValueLabelOfPod\<close>.
\<close>

theorem GetMembersOfTranslatedSets_spec:
  "\<exists>memberList.
     GetMembersOfTranslatedSets members = Inr memberList \<and>
     length memberList = length members \<and>
     (\<forall>i < length members.
        memberList ! i = Some \<lparr>Name = members ! i, Type = KeyValueLabelOfPod\<rparr>)"
  by (simp add: GetMembersOfTranslatedSets_map NewIPSetMetadata_def)

theorem GetMembersOfTranslatedSets_spec_witness:
  "GetMembersOfTranslatedSets [''app:web'', ''app:db''] =
     Inr [Some \<lparr>Name = ''app:web'', Type = KeyValueLabelOfPod\<rparr>,
          Some \<lparr>Name = ''app:db'', Type = KeyValueLabelOfPod\<rparr>]"
proof -
  obtain memberList where
    r: "GetMembersOfTranslatedSets [''app:web'', ''app:db''] = Inr memberList" and
    l: "length memberList = length [''app:web'', ''app:db'']" and
    n: "\<forall>i < length [''app:web'', ''app:db''].
          memberList ! i = Some \<lparr>Name = [''app:web'', ''app:db''] ! i, Type = KeyValueLabelOfPod\<rparr>"
    using GetMembersOfTranslatedSets_spec [of "[''app:web'', ''app:db'']"] by blast
  have "memberList ! 0 = Some \<lparr>Name = ''app:web'', Type = KeyValueLabelOfPod\<rparr>"
    using n by force
  moreover have "memberList ! 1 = Some \<lparr>Name = ''app:db'', Type = KeyValueLabelOfPod\<rparr>"
    using n by force
  ultimately have "memberList =
     [Some \<lparr>Name = ''app:web'', Type = KeyValueLabelOfPod\<rparr>,
      Some \<lparr>Name = ''app:db'', Type = KeyValueLabelOfPod\<rparr>]"
    using l by (intro nth_equalityI) (auto simp: less_Suc_eq)
  with r show ?thesis by simp
qed

section \<open>Properties of deletability\<close>

lemma run_membership_maps:
  "IPPodKey (fst (run ops s)) = IPPodKey s \<and> MemberIPSets (fst (run ops s)) = MemberIPSets s \<and>
   Kind (fst (run ops s)) = Kind s"
proof (induction ops arbitrary: s)
  case Nil
  then show ?case by simp
next
  case (Cons x xs)
  have "IPPodKey (fst (step x s)) = IPPodKey s \<and> MemberIPSets (fst (step x s)) = MemberIPSets s \<and>
        Kind (fst (step x s)) = Kind s"
    by (cases x)
      (simp_all add: incIPSetReferCount_def decIPSetReferCount_def incKernelReferCount_def
        decKernelReferCount_def addReference_def deleteReference_def)
  with Cons.IH [of "fst (step x s)"] show ?case
    by (simp add: run_Cons del: run.simps(2) step.simps)
qed

text \<open>
  The constructor leaves the membership map of the other kind nil, and no method of the
  entity assigns either map: of the two maps, only the one of the entity's kind can have
  entries.
\<close>

lemma storage_matches_Kind:
  "(Kind (fst (run ops (fst (NewIPSet u md)))) = HashSet \<longrightarrow>
      keys_map (MemberIPSets (fst (run ops (fst (NewIPSet u md))))) = {}) \<and>
   (Kind (fst (run ops (fst (NewIPSet u md)))) \<noteq> HashSet \<longrightarrow>
      keys_map (IPPodKey (fst (run ops (fst (NewIPSet u md))))) = {})"
  by (simp add: run_membership_maps NewIPSet_fields keys_map_def)

lemma listMembersOk_iff:
  assumes "visits order m"
  shows "(len_map m = 0 \<or>
          (len_map m = 1 \<and>
           (case range_map order m of [] \<Rightarrow> None | (_, member) # _ \<Rightarrow> member) = ig)) \<longleftrightarrow>
         (keys_map m = {} \<or> (\<exists>k. keys_map m = {k} \<and> lookup_map m k = Some ig))"
proof (cases "\<exists>k. keys_map m = {k}")
  case True
  then obtain k where k: "keys_map m = {k}" by blast
  then obtain v where v: "lookup_map m k = Some v"
    using lookup_map_None_iff [of m k] by auto
  have "order = [k]" using assms k by (rule one_key_order)
  then have rng: "range_map order m = [(k, v)]"
    by (simp add: range_map_def map_filter_simps v)
  have l1: "len_map m = 1" using k by (simp add: len_map_card)
  have rhs: "(\<exists>k'. keys_map m = {k'} \<and> lookup_map m k' = Some ig) \<longleftrightarrow> v = ig"
    using k v by auto
  show ?thesis
    unfolding rhs by (simp add: l1 rng k)
next
  case False
  then have "len_map m \<noteq> 1"
    using len_map_1_iff [of m] by simp
  with False show ?thesis
    by (simp add: len_map_0_iff)
qed

lemma canBeDeleted_general:
  assumes "visits order (MemberIPSets s)"
  shows "canBeDeleted order s ig \<longleftrightarrow>
           \<not> usedByNetPol s \<and> \<not> referencedInList s \<and> keys_map (IPPodKey s) = {} \<and>
           (keys_map (MemberIPSets s) = {} \<or>
            (\<exists>k. keys_map (MemberIPSets s) = {k} \<and> lookup_map (MemberIPSets s) k = Some ig))"
proof -
  have "canBeDeleted order s ig \<longleftrightarrow>
          \<not> usedByNetPol s \<and> \<not> referencedInList s \<and> len_map (IPPodKey s) = 0 \<and>
          (len_map (MemberIPSets s) = 0 \<or>
           (len_map (MemberIPSets s) = 1 \<and>
            (case range_map order (MemberIPSets s) of [] \<Rightarrow> None | (_, member) # _ \<Rightarrow> member)
              = ig))"
    unfolding canBeDeleted_def Let_def by (rule refl)
  also have "\<dots> \<longleftrightarrow>
          \<not> usedByNetPol s \<and> \<not> referencedInList s \<and> len_map (IPPodKey s) = 0 \<and>
          (keys_map (MemberIPSets s) = {} \<or>
           (\<exists>k. keys_map (MemberIPSets s) = {k} \<and> lookup_map (MemberIPSets s) k = Some ig))"
    unfolding listMembersOk_iff [OF assms] by (rule refl)
  finally show ?thesis
    unfolding len_map_0_iff .
qed

text \<open>
  Claim C1: \<open>canBeDeleted\<close> holds exactly when the entity is not used by a policy, not
  referenced in a list, and its contents are empty: for a hash set, no leaf member; for a
  list, no member, or one member that is the ignorable member. The source tests both
  maps whatever the kind (the first part); each kind is then taken with the other
  kind's map free of entries, as the constructor leaves it. For a list whose
  one member is \<open>c\<close>, \<open>canBeDeleted\<close> is false with nil to ignore, and with \<open>c\<close> to ignore it
  is true once nothing refers to the list. \<open>order\<close> is the order in which the runtime
  visits the members.
\<close>

theorem canBeDeleted_spec:
  assumes "visits order (MemberIPSets s)"
  shows
   "(canBeDeleted order s ignorableMember \<longleftrightarrow>
       \<not> usedByNetPol s \<and> \<not> referencedInList s \<and> keys_map (IPPodKey s) = {} \<and>
       (keys_map (MemberIPSets s) = {} \<or>
        (\<exists>k. keys_map (MemberIPSets s) = {k} \<and>
             lookup_map (MemberIPSets s) k = Some ignorableMember))) \<and>
    (Kind s = HashSet \<and> keys_map (MemberIPSets s) = {} \<longrightarrow>
       (canBeDeleted order s ignorableMember \<longleftrightarrow>
          \<not> usedByNetPol s \<and> \<not> referencedInList s \<and> keys_map (IPPodKey s) = {})) \<and>
    (Kind s = ListSet \<and> keys_map (IPPodKey s) = {} \<longrightarrow>
       (canBeDeleted order s ignorableMember \<longleftrightarrow>
          \<not> usedByNetPol s \<and> \<not> referencedInList s \<and>
          (keys_map (MemberIPSets s) = {} \<or>
           (\<exists>k. keys_map (MemberIPSets s) = {k} \<and>
                lookup_map (MemberIPSets s) k = Some ignorableMember)))) \<and>
    (MemberIPSets s = Some (fmupd k (Some c) fmempty) \<longrightarrow>
       \<not> canBeDeleted order s None \<and>
       (canBeDeleted order s (Some c) \<longleftrightarrow>
          \<not> usedByNetPol s \<and> \<not> referencedInList s \<and> keys_map (IPPodKey s) = {}))"
proof (intro conjI impI)
  show "canBeDeleted order s ignorableMember \<longleftrightarrow>
       \<not> usedByNetPol s \<and> \<not> referencedInList s \<and> keys_map (IPPodKey s) = {} \<and>
       (keys_map (MemberIPSets s) = {} \<or>
        (\<exists>k. keys_map (MemberIPSets s) = {k} \<and>
             lookup_map (MemberIPSets s) k = Some ignorableMember))"
    by (rule canBeDeleted_general [OF assms])
next
  assume "Kind s = HashSet \<and> keys_map (MemberIPSets s) = {}"
  then show "canBeDeleted order s ignorableMember \<longleftrightarrow>
          \<not> usedByNetPol s \<and> \<not> referencedInList s \<and> keys_map (IPPodKey s) = {}"
    by (simp add: canBeDeleted_general [OF assms])
next
  assume "Kind s = ListSet \<and> keys_map (IPPodKey s) = {}"
  then show "canBeDeleted order s ignorableMember \<longleftrightarrow>
          \<not> usedByNetPol s \<and> \<not> referencedInList s \<and>
          (keys_map (MemberIPSets s) = {} \<or>
           (\<exists>k. keys_map (MemberIPSets s) = {k} \<and>
                lookup_map (MemberIPSets s) k = Some ignorableMember))"
    by (simp add: canBeDeleted_general [OF assms])
next
  assume m: "MemberIPSets s = Some (fmupd k (Some c) fmempty)"
  then have keys: "keys_map (MemberIPSets s) = {k}"
    and look: "lookup_map (MemberIPSets s) k = Some (Some c)"
    by (simp_all add: keys_map_def lookup_map_def)
  show "\<not> canBeDeleted order s None"
    using keys look by (auto simp: canBeDeleted_general [OF assms])
  show "canBeDeleted order s (Some c) \<longleftrightarrow>
          \<not> usedByNetPol s \<and> \<not> referencedInList s \<and> keys_map (IPPodKey s) = {}"
    using keys look by (auto simp: canBeDeleted_general [OF assms])
qed

theorem canBeDeleted_spec_witness:
  "visits [''azure-npm-ns-default'']
     (MemberIPSets
       ((fst (NewIPSet sample_util \<lparr>Name = ''env'', Type = KeyLabelOfNamespace\<rparr>))
          \<lparr>MemberIPSets := Some (fmupd ''azure-npm-ns-default'' (Some 7) fmempty)\<rparr>)) \<and>
   \<not> canBeDeleted [''azure-npm-ns-default'']
       ((fst (NewIPSet sample_util \<lparr>Name = ''env'', Type = KeyLabelOfNamespace\<rparr>))
          \<lparr>MemberIPSets := Some (fmupd ''azure-npm-ns-default'' (Some 7) fmempty)\<rparr>) None \<and>
   canBeDeleted [''azure-npm-ns-default'']
       ((fst (NewIPSet sample_util \<lparr>Name = ''env'', Type = KeyLabelOfNamespace\<rparr>))
          \<lparr>MemberIPSets := Some (fmupd ''azure-npm-ns-default'' (Some 7) fmempty)\<rparr>) (Some 7) \<and>
   visits [] (MemberIPSets (fst (NewIPSet sample_util \<lparr>Name = ''default'', Type = Namespace\<rparr>))) \<and>
   Kind (fst (NewIPSet sample_util \<lparr>Name = ''default'', Type = Namespace\<rparr>)) = HashSet \<and>
   canBeDeleted [] (fst (NewIPSet sample_util \<lparr>Name = ''default'', Type = Namespace\<rparr>)) None"
proof -
  let ?l0 = "fst (NewIPSet sample_util \<lparr>Name = ''env'', Type = KeyLabelOfNamespace\<rparr>)"
  let ?l = "?l0\<lparr>MemberIPSets := Some (fmupd ''azure-npm-ns-default'' (Some 7) fmempty)\<rparr>"
  let ?h = "fst (NewIPSet sample_util \<lparr>Name = ''default'', Type = Namespace\<rparr>)"
  have kl: "getSetKind KeyLabelOfNamespace = ListSet" "getSetKind Namespace = HashSet"
    by (simp_all add: getSetKind_def SetType_defs)
  have v: "visits [''azure-npm-ns-default''] (MemberIPSets ?l)"
    by (simp add: visits_def keys_map_def)
  have m: "MemberIPSets ?l = Some (fmupd ''azure-npm-ns-default'' (Some 7) fmempty)"
    by simp
  have free: "\<not> usedByNetPol ?l" "\<not> referencedInList ?l" "keys_map (IPPodKey ?l) = {}"
    by (simp_all add: usedByNetPol_def referencedInList_def NewIPSet_fields keys_map_def
        len_fmap_def kl SetKind_defs)
  have vh: "visits [] (MemberIPSets ?h)"
    by (simp add: visits_def keys_map_def NewIPSet_fields kl)
  have h: "Kind ?h = HashSet" "keys_map (MemberIPSets ?h) = {}"
    "\<not> usedByNetPol ?h" "\<not> referencedInList ?h" "keys_map (IPPodKey ?h) = {}"
    by (simp_all add: usedByNetPol_def referencedInList_def NewIPSet_fields keys_map_def
        len_fmap_def kl)
  show ?thesis
    using v m free vh h
      canBeDeleted_spec [OF v, of None "''azure-npm-ns-default''" 7]
      canBeDeleted_spec [OF vh, of None]
    by blast
qed

section \<open>Properties of the membership test\<close>

text \<open>
  Claim C5 does not hold as stated: the result of \<open>hasMember\<close> is a boolean, and there
  is no error result. At a hash set as the constructor builds it the call returns false,
  where the specification's test fails with the invalid-kind error. The comment of the
  source expects a panic at such a set, so what the call returns there is not taken as
  intended behaviour.
\<close>

theorem hasMember_counterexample:
  "Kind (fst (NewIPSet sample_util \<lparr>Name = ''default'', Type = Namespace\<rparr>)) = HashSet \<and>
   hasMember (fst (NewIPSet sample_util \<lparr>Name = ''default'', Type = Namespace\<rparr>))
     ''azure-npm-podlabel-app:web'' = False \<and>
   HasMember_spec (fst (NewIPSet sample_util \<lparr>Name = ''default'', Type = Namespace\<rparr>))
     ''azure-npm-podlabel-app:web'' = Inl ErrIPSetInvalidKind"
  by (simp add: NewIPSet_fields hasMember_def HasMember_spec_def getSetKind_def SetType_defs
      SetKind_defs lookup_map_def)

text \<open>
  Claim C5, amended: \<open>hasMember\<close> has a boolean result and no invalid-kind error. On a
  list it is true exactly when the name is a key of the list-member map, which is the
  specification's test there.
\<close>

theorem hasMember_ListSet:
  "Kind s = ListSet \<longrightarrow>
     (hasMember s memberName \<longleftrightarrow> memberName \<in> keys_map (MemberIPSets s)) \<and>
     HasMember_spec s memberName = Inr (hasMember s memberName)"
  by (simp add: hasMember_def HasMember_spec_def lookup_map_None_iff)

theorem hasMember_ListSet_witness:
  "Kind ((fst (NewIPSet sample_util \<lparr>Name = ''env'', Type = KeyLabelOfNamespace\<rparr>))
      \<lparr>MemberIPSets := Some (fmupd ''azure-npm-ns-default'' (Some 7) fmempty)\<rparr>) = ListSet \<and>
   hasMember ((fst (NewIPSet sample_util \<lparr>Name = ''env'', Type = KeyLabelOfNamespace\<rparr>))
      \<lparr>MemberIPSets := Some (fmupd ''azure-npm-ns-default'' (Some 7) fmempty)\<rparr>)
     ''azure-npm-ns-default'' \<and>
   HasMember_spec ((fst (NewIPSet sample_util \<lparr>Name = ''env'', Type = KeyLabelOfNamespace\<rparr>))
      \<lparr>MemberIPSets := Some (fmupd ''azure-npm-ns-default'' (Some 7) fmempty)\<rparr>)
     ''azure-npm-ns-default'' = Inr True \<and>
   \<not> hasMember ((fst (NewIPSet sample_util \<lparr>Name = ''env'', Type = KeyLabelOfNamespace\<rparr>))
      \<lparr>MemberIPSets := Some (fmupd ''azure-npm-ns-default'' (Some 7) fmempty)\<rparr>)
     ''azure-npm-ns-kube-system'' \<and>
   HasMember_spec ((fst (NewIPSet sample_util \<lparr>Name = ''env'', Type = KeyLabelOfNamespace\<rparr>))
      \<lparr>MemberIPSets := Some (fmupd ''azure-npm-ns-default'' (Some 7) fmempty)\<rparr>)
     ''azure-npm-ns-kube-system'' = Inr False"
proof -
  let ?l = "(fst (NewIPSet sample_util \<lparr>Name = ''env'', Type = KeyLabelOfNamespace\<rparr>))
              \<lparr>MemberIPSets := Some (fmupd ''azure-npm-ns-default'' (Some 7) fmempty)\<rparr>"
  have l: "Kind ?l = ListSet"
    by (simp add: NewIPSet_fields getSetKind_def SetType_defs)
  have k: "keys_map (MemberIPSets ?l) = {''azure-npm-ns-default''}"
    by (simp add: keys_map_def)
  have n: "''azure-npm-ns-kube-system'' \<noteq> ''azure-npm-ns-default''"
    by simp
  show ?thesis
    using l k n hasMember_ListSet [of ?l "''azure-npm-ns-default''"]
      hasMember_ListSet [of ?l "''azure-npm-ns-kube-system''"]
    by simp
qed

section \<open>Properties of the set contents\<close>

lemma GetSetContents_HashSet:
  assumes "Kind s = HashSet" "visits order (IPPodKey s)"
  shows "GetSetContents heap order s = Inr (order, None)"
proof -
  let ?m = "IPPodKey s"
  have r: "range_map order ?m = map (\<lambda>k. (k, the (lookup_map ?m k))) order"
    using assms(2) by (intro range_map_visits) (simp add: visits_def)
  have "fill_loop (\<lambda>(podIP, _). Inr podIP) (replicate (len_map ?m) []) 0 (range_map order ?m)
          = Inr (map fst (range_map order ?m))"
    using assms(2) by (intro fill_loop_fresh) (auto simp: r visits_length)
  also have "map fst (range_map order ?m) = order"
    by (simp add: r comp_def)
  finally show ?thesis
    using assms(1) by (simp add: GetSetContents_def)
qed

lemma GetSetContents_ListSet:
  assumes "Kind s = ListSet" "visits order (MemberIPSets s)"
    and "map (lookup_map (MemberIPSets s)) order = map (\<lambda>a. Some (Some a)) members"
  shows "GetSetContents heap order s = Inr (map (\<lambda>a. HashedName (heap a)) members, None)"
proof -
  let ?m = "MemberIPSets s"
  let ?f = "\<lambda>(_ :: string, memberSet).
              case memberSet of
                None \<Rightarrow> Inl NilPointerDereference
              | Some a \<Rightarrow> Inr (HashedName (heap a))"
  let ?g = "\<lambda>(_ :: string, memberSet :: IPSet_ptr). HashedName (heap (the memberSet))"
  have r: "range_map order ?m = map (\<lambda>k. (k, the (lookup_map ?m k))) order"
    using assms(2) by (intro range_map_visits) (simp add: visits_def)
  have len: "length order = length members"
    using assms(3) by (metis length_map)
  have nth: "lookup_map ?m (order ! i) = Some (Some (members ! i))" if "i < length order" for i
    using that len nth_map [of i order "lookup_map ?m"] nth_map [of i members "\<lambda>a. Some (Some a)"]
      assms(3) by simp
  have ptr: "map snd (range_map order ?m) = map Some members"
    using len by (intro nth_equalityI) (simp_all add: r nth)
  have "fill_loop ?f (replicate (len_map ?m) []) 0 (range_map order ?m)
          = Inr (map ?g (range_map order ?m))"
  proof (rule fill_loop_fresh)
    fix x assume "x \<in> set (range_map order ?m)"
    then have "snd x \<in> set (map Some members)"
      using ptr by (metis image_eqI set_map)
    then show "?f x = Inr (?g x)"
      by (cases x) auto
  next
    show "length (range_map order ?m) = len_map ?m"
      using assms(2) by (simp add: r visits_length)
  qed
  also have "map ?g (range_map order ?m) = map (\<lambda>p. HashedName (heap (the p))) (map snd (range_map order ?m))"
    by (simp add: comp_def split_beta)
  also have "\<dots> = map (\<lambda>a. HashedName (heap a)) members"
    by (simp add: ptr comp_def)
  finally show ?thesis
    using assms(1) by (simp add: GetSetContents_def SetKind_defs)
qed

text \<open>
  Claim C6: for a hash set \<open>GetSetContents\<close> returns, with no error, the keys of the leaf
  map, each once, in the order the runtime visits them; for a list whose members are the
  entities at the addresses \<open>members\<close>, it returns their hashed names, one for each
  member, with no error; for any other kind it returns the empty slice and the
  invalid-kind error, and does not panic. It is a function of the entity and assigns
  nothing, so the entity is as before.
\<close>

theorem GetSetContents_spec:
  "(Kind s = HashSet \<and> visits order (IPPodKey s) \<longrightarrow>
      GetSetContents heap order s = Inr (order, None) \<and>
      length order = len_map (IPPodKey s)) \<and>
   (Kind s = ListSet \<and> visits order (MemberIPSets s) \<and>
    map (lookup_map (MemberIPSets s)) order = map (\<lambda>a. Some (Some a)) members \<longrightarrow>
      GetSetContents heap order s = Inr (map (\<lambda>a. HashedName (heap a)) members, None) \<and>
      length members = len_map (MemberIPSets s)) \<and>
   (Kind s \<noteq> HashSet \<and> Kind s \<noteq> ListSet \<longrightarrow>
      GetSetContents heap order s = Inr ([], Some ErrIPSetInvalidKind))"
proof (intro conjI impI)
  assume a: "Kind s = HashSet \<and> visits order (IPPodKey s)"
  then show "GetSetContents heap order s = Inr (order, None)"
    by (simp add: GetSetContents_HashSet)
  from a show "length order = len_map (IPPodKey s)"
    by (simp add: visits_length)
next
  assume a: "Kind s = ListSet \<and> visits order (MemberIPSets s) \<and>
    map (lookup_map (MemberIPSets s)) order = map (\<lambda>a. Some (Some a)) members"
  then show "GetSetContents heap order s = Inr (map (\<lambda>a. HashedName (heap a)) members, None)"
    by (simp add: GetSetContents_ListSet)
  have "length order = length members"
    using a by (metis length_map)
  with a visits_length [of order "MemberIPSets s"]
  show "length members = len_map (MemberIPSets s)"
    by simp
next
  assume "Kind s \<noteq> HashSet \<and> Kind s \<noteq> ListSet"
  then show "GetSetContents heap order s = Inr ([], Some ErrIPSetInvalidKind)"
    by (simp add: GetSetContents_def)
qed

theorem GetSetContents_spec_witness:
  "Kind ((fst (NewIPSet sample_util \<lparr>Name = ''default'', Type = Namespace\<rparr>))
      \<lparr>IPPodKey := Some (fmupd ''10.0.0.1'' ''default/a'' (fmupd ''10.0.0.2'' ''default/b'' fmempty))\<rparr>)
     = HashSet \<and>
   visits [''10.0.0.2'', ''10.0.0.1'']
     (IPPodKey ((fst (NewIPSet sample_util \<lparr>Name = ''default'', Type = Namespace\<rparr>))
      \<lparr>IPPodKey := Some (fmupd ''10.0.0.1'' ''default/a'' (fmupd ''10.0.0.2'' ''default/b'' fmempty))\<rparr>)) \<and>
   GetSetContents (\<lambda>a. fst (NewIPSet sample_util \<lparr>Name = ''default'', Type = Namespace\<rparr>))
     [''10.0.0.2'', ''10.0.0.1'']
     ((fst (NewIPSet sample_util \<lparr>Name = ''default'', Type = Namespace\<rparr>))
      \<lparr>IPPodKey := Some (fmupd ''10.0.0.1'' ''default/a'' (fmupd ''10.0.0.2'' ''default/b'' fmempty))\<rparr>)
     = Inr ([''10.0.0.2'', ''10.0.0.1''], None) \<and>
   Kind ((fst (NewIPSet sample_util \<lparr>Name = ''env'', Type = KeyLabelOfNamespace\<rparr>))
      \<lparr>MemberIPSets := Some (fmupd ''azure-npm-ns-default'' (Some 7) fmempty)\<rparr>) = ListSet \<and>
   visits [''azure-npm-ns-default'']
     (MemberIPSets ((fst (NewIPSet sample_util \<lparr>Name = ''env'', Type = KeyLabelOfNamespace\<rparr>))
      \<lparr>MemberIPSets := Some (fmupd ''azure-npm-ns-default'' (Some 7) fmempty)\<rparr>)) \<and>
   GetSetContents (\<lambda>a. fst (NewIPSet sample_util \<lparr>Name = ''default'', Type = Namespace\<rparr>))
     [''azure-npm-ns-default'']
     ((fst (NewIPSet sample_util \<lparr>Name = ''env'', Type = KeyLabelOfNamespace\<rparr>))
      \<lparr>MemberIPSets := Some (fmupd ''azure-npm-ns-default'' (Some 7) fmempty)\<rparr>)
     = Inr ([''azure-npm-ns-default''], None) \<and>
   Kind ((fst (NewIPSet sample_util \<lparr>Name = ''default'', Type = Namespace\<rparr>))\<lparr>Kind := ''bitmap''\<rparr>)
     \<noteq> HashSet \<and>
   Kind ((fst (NewIPSet sample_util \<lparr>Name = ''default'', Type = Namespace\<rparr>))\<lparr>Kind := ''bitmap''\<rparr>)
     \<noteq> ListSet \<and>
   GetSetContents (\<lambda>a. fst (NewIPSet sample_util \<lparr>Name = ''default'', Type = Namespace\<rparr>)) []
     ((fst (NewIPSet sample_util \<lparr>Name = ''default'', Type = Namespace\<rparr>))\<lparr>Kind := ''bitmap''\<rparr>)
     = Inr ([], Some ErrIPSetInvalidKind)"
proof -
  let ?c = "fst (NewIPSet sample_util \<lparr>Name = ''default'', Type = Namespace\<rparr>)"
  let ?heap = "\<lambda>a :: addr. ?c"
  let ?h = "?c\<lparr>IPPodKey :=
              Some (fmupd ''10.0.0.1'' ''default/a'' (fmupd ''10.0.0.2'' ''default/b'' fmempty))\<rparr>"
  let ?l = "(fst (NewIPSet sample_util \<lparr>Name = ''env'', Type = KeyLabelOfNamespace\<rparr>))
              \<lparr>MemberIPSets := Some (fmupd ''azure-npm-ns-default'' (Some 7) fmempty)\<rparr>"
  let ?x = "?c\<lparr>Kind := ''bitmap''\<rparr>"
  have kl: "getSetKind KeyLabelOfNamespace = ListSet" "getSetKind Namespace = HashSet"
    by (simp_all add: getSetKind_def SetType_defs)
  have h: "Kind ?h = HashSet" "visits [''10.0.0.2'', ''10.0.0.1''] (IPPodKey ?h)"
    by (auto simp: NewIPSet_fields kl visits_def keys_map_def)
  have l: "Kind ?l = ListSet" "visits [''azure-npm-ns-default''] (MemberIPSets ?l)"
    "map (lookup_map (MemberIPSets ?l)) [''azure-npm-ns-default''] = map (\<lambda>a. Some (Some a)) [7]"
    by (auto simp: NewIPSet_fields kl visits_def keys_map_def lookup_map_def)
  have x: "Kind ?x \<noteq> HashSet" "Kind ?x \<noteq> ListSet"
    by (simp_all add: SetKind_defs)
  have n: "HashedName (?heap 7) = ''azure-npm-ns-default''"
    by (simp add: NewIPSet_fields GetPrefixName_def SetType_defs sample_util_def)
  show ?thesis
    using h l x n
      GetSetContents_spec [where s = ?h and order = "[''10.0.0.2'', ''10.0.0.1'']" and heap = ?heap]
      GetSetContents_spec [where s = ?l and order = "[''azure-npm-ns-default'']"
        and members = "[7]" and heap = ?heap]
      GetSetContents_spec [where s = ?x and order = "[]" and heap = ?heap]
    by simp
qed

end
